theory Spec2Isabelle
  imports Complex_Main
begin

unbundle bit_operations_syntax

section \<open>The HHL example (examples/hhl.py): data model\<close>

text \<open>
  Python integers are \<open>int\<close>, Python floats are idealised as \<open>real\<close>. An exception of the
  source is a value \<open>Inl e\<close> of a sum type.
\<close>

datatype error = ValueError | ZeroDivisionError | TypeError

text \<open>\<open>cirq.LineQubit(x)\<close>.\<close>

datatype qubit = LineQubit int

text \<open>
  A Python number that is either an \<open>int\<close> or a \<open>float\<close>: \<open>2 ** m\<close> is an \<open>int\<close> for
  \<open>m \<ge> 0\<close> and a \<open>float\<close> for \<open>m < 0\<close>.
\<close>

datatype pynum = PyInt int | PyFloat real

fun pyreal :: "pynum \<Rightarrow> real" where
  "pyreal (PyInt i) = real_of_int i"
| "pyreal (PyFloat x) = x"

definition py_pow2 :: "int \<Rightarrow> pynum" where
  "py_pow2 m = (if 0 \<le> m then PyInt (2 ^ nat m) else PyFloat (2 powi m))"

text \<open>Float division and \<open>math.asin\<close>, with the exceptions Python raises.\<close>

definition py_truediv :: "real \<Rightarrow> real \<Rightarrow> error + real" where
  "py_truediv a b = (if b = 0 then Inl ZeroDivisionError else Inr (a / b))"

definition math_asin :: "real \<Rightarrow> error + real" where
  "math_asin x = (if - 1 \<le> x \<and> x \<le> 1 then Inr (arcsin x) else Inl ValueError)"

text \<open>
  A matrix is a list of rows. \<open>np.linalg.eigh\<close> is outside the program: it is a parameter
  \<open>eigh\<close> of the model, a function from the matrix to the eigenvalues \<open>ws\<close> and the matrix
  \<open>vs\<close> whose columns are the eigenvectors.
\<close>

type_synonym matrix = "complex list list"
type_synonym eigh_fun = "matrix \<Rightarrow> real list \<times> matrix"

text \<open>The attributes of a \<open>HamiltonianSimulation\<close> gate (an \<open>EigenGate\<close>).\<close>

record hamiltonian_simulation =
  hs_A :: matrix
  hs_t :: real
  hs_exponent :: real
  eigen_components :: "(real \<times> matrix) list"

text \<open>The attributes of an \<open>EigenRotation\<close> gate.\<close>

record eigen_rotation =
  er_num_qubits :: int
  er_C :: real
  er_t :: real
  er_N :: pynum

text \<open>
  The gates the program builds. \<open>ControlledGate g n\<close> is \<open>cirq.ControlledGate(g, num_controls=n)\<close>
  (\<open>n = 1\<close> when the source gives no \<open>num_controls\<close>); \<open>PhasedXPowGate e p\<close> carries the names
  of its two \<open>sympy.Symbol\<close> parameters; \<open>MeasurementGate key\<close> is the gate of
  \<open>cirq.measure(q, key=key)\<close>; \<open>Rx\<close> and \<open>Rz\<close> are the input-preparation gates of \<open>main\<close>.
\<close>

datatype gate =
    X
  | Z
  | Rx real
  | Ry real
  | Rz real
  | ControlledGate gate int
  | PhasedXPowGate string string
  | MeasurementGate string
  | HamiltonianSimulation hamiltonian_simulation
  | PhaseEstimation int hamiltonian_simulation
  | EigenRotation eigen_rotation

text \<open>
  Modelled from the spec: the circuit library (\<open>cirq.Circuit\<close>, \<open>cirq.GateOperation\<close>) is not
  among the sources. A CircuitDescription is "an ordered sequence of gate-application
  operations over qubit identifiers; purely declarative", "composable via concatenation and
  inversion (reversing operation order and inverting each operation)". An operation is a gate
  on its qubits, or the inverse (\<open>op ** -1\<close>) of an operation; applying a gate to qubits is
  declarative, the library's checks of the operands are not part of the model.
\<close>

datatype operation = GateOperation gate "qubit list" | Inverse operation

type_synonym circuit = "operation list"

definition circuit_inverse :: "circuit \<Rightarrow> circuit" where
  "circuit_inverse c = map Inverse (rev c)"

section \<open>HamiltonianSimulation\<close>

text \<open>\<open>np.outer(v, np.conj(v))\<close>.\<close>

definition outer_conj :: "complex list \<Rightarrow> matrix" where
  "outer_conj v = map (\<lambda>a. map (\<lambda>b. a * cnj b) v) v"

text \<open>
  \<open>HamiltonianSimulation.__init__\<close>. The second component of the result is the list of the
  matrices handed to \<open>np.linalg.eigh\<close> during the call, in order.
\<close>

definition HamiltonianSimulation_init ::
  "eigh_fun \<Rightarrow> matrix \<Rightarrow> real \<Rightarrow> real \<Rightarrow> hamiltonian_simulation \<times> matrix list" where
  "HamiltonianSimulation_init eigh A t exponent =
     (let (ws, vs) = eigh A in
      (\<lparr> hs_A = A, hs_t = t, hs_exponent = exponent,
         eigen_components = map (\<lambda>(w, v). (w * t / pi, outer_conj v)) (zip ws (transpose vs)) \<rparr>,
       [A]))"

text \<open>\<open>HamiltonianSimulation._with_exponent\<close>.\<close>

definition with_exponent ::
  "eigh_fun \<Rightarrow> hamiltonian_simulation \<Rightarrow> real \<Rightarrow> hamiltonian_simulation \<times> matrix list" where
  "with_exponent eigh self exponent = HamiltonianSimulation_init eigh (hs_A self) (hs_t self) exponent"

section \<open>EigenRotation\<close>

text \<open>\<open>EigenRotation.__init__\<close>.\<close>

definition EigenRotation_init :: "int \<Rightarrow> real \<Rightarrow> real \<Rightarrow> eigen_rotation" where
  "EigenRotation_init num_qubits C t =
     \<lparr> er_num_qubits = num_qubits, er_C = C, er_t = t, er_N = py_pow2 (num_qubits - 1) \<rparr>"

text \<open>\<open>EigenRotation._ancilla_rotation\<close>.\<close>

definition ancilla_rotation :: "eigen_rotation \<Rightarrow> int \<Rightarrow> error + gate" where
  "ancilla_rotation self k =
     (let k' = (if k = 0 then pyreal (er_N self) else real_of_int k) in
      case py_truediv (er_C self * pyreal (er_N self) * er_t self) (2 * pi * k') of
        Inl e \<Rightarrow> Inl e
      | Inr x \<Rightarrow> (case math_asin x of Inl e \<Rightarrow> Inl e | Inr a \<Rightarrow> Inr (Ry (2 * a))))"

text \<open>
  The inner loop of \<open>EigenRotation._decompose_\<close> over \<open>qubits[-2::-1]\<close>: it emits an X on the
  qubit when the lowest bit of \<open>xor\<close> (here \<open>xr\<close>) is set, shifts it right and wraps
  \<open>kGate\<close> in one more control. It returns the X gates emitted and the final \<open>kGate\<close>.
\<close>

fun place_x_gates :: "int \<Rightarrow> gate \<Rightarrow> qubit list \<Rightarrow> operation list \<times> gate" where
  "place_x_gates xr kGate [] = ([], kGate)"
| "place_x_gates xr kGate (q # qs) =
     (let xs = (if xr mod 2 = 1 then [GateOperation X [q]] else []);
          (ops, g) = place_x_gates (drop_bit 1 xr) (ControlledGate kGate 1) qs
      in (xs @ ops, g))"

text \<open>
  The outer loop of \<open>_decompose_\<close> over the values \<open>ks\<close> of \<open>k\<close>; \<open>rev (butlast qubits)\<close> is
  the slice \<open>qubits[-2::-1]\<close>. An exception in \<open>_ancilla_rotation\<close> ends the decomposition.
\<close>

fun decompose_loop :: "eigen_rotation \<Rightarrow> qubit list \<Rightarrow> int list \<Rightarrow> error + operation list" where
  "decompose_loop self qubits [] = Inr []"
| "decompose_loop self qubits (k # ks) =
     (case ancilla_rotation self k of
        Inl e \<Rightarrow> Inl e
      | Inr kGate0 \<Rightarrow>
          (let (xs, kGate) = place_x_gates (k XOR (k - 1)) kGate0 (rev (butlast qubits)) in
           case decompose_loop self qubits ks of
             Inl e \<Rightarrow> Inl e
           | Inr rest \<Rightarrow> Inr (xs @ [GateOperation kGate qubits] @ rest)))"

text \<open>\<open>range(self.N)\<close>: a \<open>TypeError\<close> when \<open>N\<close> is a float.\<close>

definition py_range :: "pynum \<Rightarrow> error + int list" where
  "py_range n = (case n of PyInt m \<Rightarrow> Inr [0..m - 1] | PyFloat _ \<Rightarrow> Inl TypeError)"

text \<open>\<open>EigenRotation._decompose_\<close>.\<close>

definition EigenRotation_decompose :: "eigen_rotation \<Rightarrow> qubit list \<Rightarrow> error + operation list" where
  "EigenRotation_decompose self qubits =
     (case py_range (er_N self) of Inl e \<Rightarrow> Inl e | Inr ks \<Rightarrow> decompose_loop self qubits ks)"

section \<open>HHLAlgorithm: circuit synthesis\<close>

text \<open>The attributes of an \<open>HHLAlgorithm\<close> object.\<close>

record hhl_algorithm =
  hhl_A :: matrix
  hhl_C :: real
  hhl_t :: real
  register_size :: int
  input_prep_gates :: "gate list"
  ancilla :: qubit
  register :: "qubit list"
  memory :: qubit

text \<open>\<open>HHLAlgorithm.__init__\<close>; \<open>[0..register_size - 1]\<close> is \<open>range(register_size)\<close>.\<close>

definition HHLAlgorithm_init :: "matrix \<Rightarrow> real \<Rightarrow> real \<Rightarrow> int \<Rightarrow> gate list \<Rightarrow> hhl_algorithm" where
  "HHLAlgorithm_init A C t register_size' input_prep_gates' =
     \<lparr> hhl_A = A, hhl_C = C, hhl_t = t, register_size = register_size',
       input_prep_gates = input_prep_gates',
       ancilla = LineQubit 0,
       register = map (\<lambda>i. LineQubit (i + 1)) [0..register_size' - 1],
       memory = LineQubit (register_size' + 1) \<rparr>"

text \<open>\<open>HHLAlgorithm.hhl_circuit\<close>.\<close>

definition hhl_circuit :: "eigh_fun \<Rightarrow> hhl_algorithm \<Rightarrow> circuit" where
  "hhl_circuit eigh self =
     (let c0 = [];
          hs = fst (HamiltonianSimulation_init eigh (hhl_A self) (hhl_t self) 1);
          pe = PhaseEstimation (register_size self + 1) hs;
          c1 = c0 @ map (\<lambda>g. GateOperation g [memory self]) (input_prep_gates self)
      in c1 @
         [ GateOperation pe (register self @ [memory self]),
           GateOperation
             (EigenRotation (EigenRotation_init (register_size self + 1) (hhl_C self) (hhl_t self)))
             (register self @ [ancilla self]),
           Inverse (GateOperation pe (register self @ [memory self])) ])"

text \<open>\<open>HHLAlgorithm.diffusion_operator\<close>.\<close>

definition diffusion_operator :: "hhl_algorithm \<Rightarrow> circuit" where
  "diffusion_operator self =
     (let qubits = [ancilla self] @ register self @ [memory self] in
      map (\<lambda>q. GateOperation X [q]) qubits
      @ [GateOperation (ControlledGate Z (register_size self + 1)) qubits]
      @ map (\<lambda>q. GateOperation X [q]) qubits)"

text \<open>The loop \<open>for _ in range(num_iterations)\<close> of \<open>amplitude_amplification\<close>.\<close>

fun amplification_loop :: "nat \<Rightarrow> operation \<Rightarrow> circuit \<Rightarrow> circuit \<Rightarrow> circuit \<Rightarrow> circuit" where
  "amplification_loop 0 r_succ r_init hhl c = c"
| "amplification_loop (Suc n) r_succ r_init hhl c =
     amplification_loop n r_succ r_init hhl (c @ [r_succ] @ circuit_inverse hhl @ r_init @ hhl)"

text \<open>\<open>HHLAlgorithm.amplitude_amplification\<close>; \<open>range\<close> of a negative number is empty.\<close>

definition amplitude_amplification :: "eigh_fun \<Rightarrow> hhl_algorithm \<Rightarrow> int \<Rightarrow> circuit" where
  "amplitude_amplification eigh self num_iterations =
     (let hhl = hhl_circuit eigh self;
          c = [] @ hhl;
          r_succ = GateOperation Z [ancilla self];
          r_init = diffusion_operator self
      in amplification_loop (nat num_iterations) r_succ r_init hhl c)"

text \<open>
  \<open>HHLAlgorithm.measure_circuit\<close>. \<open>measured_contents\<close> is what the two \<open>append\<close> calls make
  of the contents of the circuit. The circuit itself is an object: a store maps object
  references to the contents of the circuits, and \<open>measure_circuit\<close> takes the reference it
  is given, updates the store there and returns the reference.
\<close>

definition measured_contents :: "hhl_algorithm \<Rightarrow> circuit \<Rightarrow> circuit" where
  "measured_contents self c =
     (c @ [GateOperation (MeasurementGate ''a'') [ancilla self]])
     @ [ GateOperation (PhasedXPowGate ''exponent'' ''phase_exponent'') [memory self],
         GateOperation (MeasurementGate ''m'') [memory self] ]"

type_synonym ref = nat
type_synonym store = "ref \<Rightarrow> circuit"

definition measure_circuit :: "hhl_algorithm \<Rightarrow> ref \<Rightarrow> store \<Rightarrow> ref \<times> store" where
  "measure_circuit self circuit st = (circuit, st(circuit := measured_contents self (st circuit)))"

section \<open>HHLAlgorithm: sampling\<close>

text \<open>
  The execution engine (\<open>cirq.Simulator\<close>) and \<open>random.randint\<close> are outside the program. They
  are parameters of the model: \<open>run_sweep\<close> gives one list of shots for each parameter set,
  \<open>run\<close> and \<open>randint\<close> take the number of \<open>simulator.run\<close> calls made before, so that two
  calls with the same arguments may differ. A shot is the pair of the measured bits of the
  keys \<open>'a'\<close> and \<open>'m'\<close>.
\<close>

type_synonym param = "(string \<times> real) list"
type_synonym shot = "int \<times> int"

record world =
  run_sweep :: "circuit \<Rightarrow> param list \<Rightarrow> int \<Rightarrow> shot list list"
  run :: "nat \<Rightarrow> circuit \<Rightarrow> param \<Rightarrow> int \<Rightarrow> shot list"
  randint :: "nat \<Rightarrow> int \<Rightarrow> int \<Rightarrow> int"

text \<open>The cases for measuring X, Y and Z on the memory qubit.\<close>

definition params :: "param list" where
  "params =
     [ [(''exponent'', 0.5), (''phase_exponent'', - 0.5)],
       [(''exponent'', 0.5), (''phase_exponent'', 0)],
       [(''exponent'', 0), (''phase_exponent'', 0)] ]"

text \<open>\<open>result.measurements['m'][result.measurements['a'] == 1]\<close>.\<close>

definition surviving :: "shot list \<Rightarrow> int list" where
  "surviving shots = map snd (filter (\<lambda>(a, m). a = 1) shots)"

text \<open>
  \<open>HHLAlgorithm.simulate_without_amplification\<close>. The second component is the list of the
  execution-engine calls made: circuit, parameter sets, repetitions.
\<close>

definition simulate_without_amplification ::
  "world \<Rightarrow> eigh_fun \<Rightarrow> hhl_algorithm \<Rightarrow> int \<Rightarrow> int list list \<times> (circuit \<times> param list \<times> int) list" where
  "simulate_without_amplification w eigh self total_runs =
     (let circuit = measured_contents self (hhl_circuit eigh self);
          results = run_sweep w circuit params total_runs
      in (map surviving results, [(circuit, params, total_runs)]))"

text \<open>
  One \<open>simulator.run\<close> call of \<open>simulate_with_amplification\<close>, as logged: its arguments and
  the number of shots it returned with the ancilla measured as 1.
\<close>

record run_call =
  rc_circuit :: circuit
  rc_resolver :: param
  rc_repetitions :: int
  rc_successes :: int

text \<open>The local variables of the loop body of \<open>for param in params\<close>, and the calls issued.\<close>

record sampler_state =
  repetitions :: int
  num_runs :: int
  results_for_param :: "int list list"
  issued :: "run_call list"

text \<open>
  The body of \<open>for _ in range(2)\<close> up to the test of \<open>repetitions\<close>; \<open>base\<close> is the number of
  \<open>simulator.run\<close> calls made for earlier observables.
\<close>

definition trial ::
  "world \<Rightarrow> eigh_fun \<Rightarrow> hhl_algorithm \<Rightarrow> param \<Rightarrow> nat \<Rightarrow> int \<Rightarrow> sampler_state \<Rightarrow> sampler_state" where
  "trial w eigh self resolver base M s =
     (let n = base + length (issued s);
          j = randint w n 0 (M - 1);
          circuit = measured_contents self (amplitude_amplification eigh self j);
          result = run w n circuit resolver (repetitions s);
          found = int (length (filter (\<lambda>(a, m). a = 1) result))
      in \<lparr> repetitions = repetitions s - found,
           num_runs = num_runs s + repetitions s,
           results_for_param = results_for_param s @ [surviving result],
           issued = issued s @
             [\<lparr> rc_circuit = circuit, rc_resolver = resolver,
                rc_repetitions = repetitions s, rc_successes = found \<rparr>] \<rparr>)"

text \<open>\<open>for _ in range(2)\<close>, with its \<open>break\<close>.\<close>

fun trials_loop ::
  "world \<Rightarrow> eigh_fun \<Rightarrow> hhl_algorithm \<Rightarrow> param \<Rightarrow> nat \<Rightarrow> int \<Rightarrow> nat list \<Rightarrow> sampler_state
     \<Rightarrow> sampler_state" where
  "trials_loop w eigh self resolver base M [] s = s"
| "trials_loop w eigh self resolver base M (i # rest) s =
     (let s' = trial w eigh self resolver base M s in
      if repetitions s' \<le> 0 then s' else trials_loop w eigh self resolver base M rest s')"

text \<open>\<open>for l in range(1, 10)\<close>, with its \<open>break\<close>.\<close>

fun doubling_loop ::
  "world \<Rightarrow> eigh_fun \<Rightarrow> hhl_algorithm \<Rightarrow> param \<Rightarrow> nat \<Rightarrow> int list \<Rightarrow> sampler_state
     \<Rightarrow> sampler_state" where
  "doubling_loop w eigh self resolver base [] s = s"
| "doubling_loop w eigh self resolver base (l # ls) s =
     (let M = 2 ^ nat l;
          s' = trials_loop w eigh self resolver base M [0, 1] s
      in if repetitions s' \<le> 0 then s' else doubling_loop w eigh self resolver base ls s')"

text \<open>The body of \<open>for param in params\<close>.\<close>

definition sample_param ::
  "world \<Rightarrow> eigh_fun \<Rightarrow> hhl_algorithm \<Rightarrow> int \<Rightarrow> nat \<Rightarrow> param \<Rightarrow> sampler_state" where
  "sample_param w eigh self total_estimates base param =
     doubling_loop w eigh self param base [1..9]
       \<lparr> repetitions = total_estimates, num_runs = 0, results_for_param = [], issued = [] \<rparr>"

text \<open>
  \<open>for param in params\<close>: the lists \<open>results\<close> and \<open>runs\<close>, and the calls issued for each
  parameter set.
\<close>

fun params_loop ::
  "world \<Rightarrow> eigh_fun \<Rightarrow> hhl_algorithm \<Rightarrow> int \<Rightarrow> nat \<Rightarrow> param list
     \<Rightarrow> int list list \<times> int list \<times> run_call list list" where
  "params_loop w eigh self total_estimates base [] = ([], [], [])"
| "params_loop w eigh self total_estimates base (p # ps) =
     (let s = sample_param w eigh self total_estimates base p;
          (results, runs, logs) =
             params_loop w eigh self total_estimates (base + length (issued s)) ps
      in (concat (results_for_param s) # results, num_runs s # runs, issued s # logs))"

text \<open>\<open>HHLAlgorithm.simulate_with_amplification\<close>.\<close>

definition simulate_with_amplification ::
  "world \<Rightarrow> eigh_fun \<Rightarrow> hhl_algorithm \<Rightarrow> int
     \<Rightarrow> int list list \<times> int list \<times> run_call list list" where
  "simulate_with_amplification w eigh self total_estimates =
     params_loop w eigh self total_estimates 0 params"

section \<open>HHLAlgorithm: reporting\<close>

text \<open>
  A numpy float: a number or NaN. \<open>np.mean\<close> of an empty array is NaN (and a warning, not an
  exception); arithmetic with NaN gives NaN.
\<close>

datatype npfloat = Finite real | NaN

definition np_mean :: "real list \<Rightarrow> npfloat" where
  "np_mean xs = (if xs = [] then NaN else Finite (sum_list xs / real (length xs)))"

fun one_minus_twice :: "npfloat \<Rightarrow> npfloat" where
  "one_minus_twice (Finite x) = Finite (1 - 2 * x)"
| "one_minus_twice NaN = NaN"

text \<open>One printed line: label, expectation, number of estimates, runs.\<close>

type_synonym line = "string \<times> npfloat \<times> int \<times> int"

text \<open>\<open>num_estimates / runs\<close> on two Python ints.\<close>

definition int_truediv :: "int \<Rightarrow> int \<Rightarrow> error + real" where
  "int_truediv a b = (if b = 0 then Inl ZeroDivisionError else Inr (real_of_int a / real_of_int b))"

text \<open>
  The loop of \<open>print_results\<close> over \<open>zip(('X', 'Y', 'Z'), results, num_runs)\<close>: the lines
  printed so far and the list \<open>success_probability\<close>. An exception ends the loop; the lines
  printed before it stay printed.
\<close>

fun print_loop ::
  "(string \<times> int list \<times> int) list \<Rightarrow> line list \<Rightarrow> real list \<Rightarrow> line list \<times> (error + real list)" where
  "print_loop [] printed success_probability = (printed, Inr success_probability)"
| "print_loop ((label, result, runs) # rest) printed success_probability =
     (let expectation = one_minus_twice (np_mean (map real_of_int result));
          num_estimates = int (length result);
          printed' = printed @ [(label, expectation, num_estimates, runs)]
      in case int_truediv num_estimates runs of
           Inl e \<Rightarrow> (printed', Inl e)
         | Inr p \<Rightarrow> print_loop rest printed' (success_probability @ [p]))"

text \<open>\<open>HHLAlgorithm.print_results\<close>: the lines printed, and the value returned or the exception.\<close>

definition print_results :: "int list list \<Rightarrow> int list \<Rightarrow> line list \<times> (error + npfloat)" where
  "print_results results num_runs' =
     (case print_loop (zip [''X'', ''Y'', ''Z''] (zip results num_runs')) [] [] of
        (printed, Inl e) \<Rightarrow> (printed, Inl e)
      | (printed, Inr ps) \<Rightarrow> (printed, Inr (np_mean ps)))"

section \<open>Definitions used to state the properties\<close>

text \<open>
  The rotation angle as the specification words it: with \<open>N = 2 ^ n\<close> and \<open>k' = k\<close> if
  \<open>k \<noteq> 0\<close> else \<open>N\<close>, the argument of the arcsine is \<open>C N t / (2 \<pi> k')\<close> and the
  angle is twice its arcsine.
\<close>

definition theta_arg :: "real \<Rightarrow> real \<Rightarrow> nat \<Rightarrow> nat \<Rightarrow> real" where
  "theta_arg C t n k =
     (let N = (2::nat) ^ n; k' = (if k \<noteq> 0 then k else N) in C * real N * t / (2 * pi * real k'))"

definition theta_spec :: "real \<Rightarrow> real \<Rightarrow> nat \<Rightarrow> nat \<Rightarrow> real" where
  "theta_spec C t n k = 2 * arcsin (theta_arg C t n k)"

text \<open>Measurement gates and measurement operations.\<close>

fun is_measurement_gate :: "gate \<Rightarrow> bool" where
  "is_measurement_gate (MeasurementGate key) = True"
| "is_measurement_gate (ControlledGate g n) = is_measurement_gate g"
| "is_measurement_gate g = False"

fun is_measurement :: "operation \<Rightarrow> bool" where
  "is_measurement (GateOperation g qs) = is_measurement_gate g"
| "is_measurement (Inverse operation) = is_measurement operation"

text \<open>
  The log of the \<open>simulator.run\<close> calls issued for one observable, read against the loop of
  \<open>simulate_with_amplification\<close>: each call is issued with the remaining counter \<open>r\<close> as its
  \<open>repetitions\<close>, and a call is followed by another one only if the counter is still positive
  after it.
\<close>

fun well_logged :: "int \<Rightarrow> run_call list \<Rightarrow> bool" where
  "well_logged r [] = True"
| "well_logged r (c # cs) =
     (rc_repetitions c = r \<and> (cs \<noteq> [] \<longrightarrow> 0 < r - rc_successes c)
      \<and> well_logged (r - rc_successes c) cs)"

text \<open>
  What the specification says of one observable, for the budget \<open>budget\<close> (\<open>total_estimates\<close>), the run count \<open>runs\<close> returned and
  the calls issued: at most 18 calls, the loop stops as soon as the counter is zero or below,
  it goes on to the 18th call otherwise, and the run count is the sum of the \<open>repetitions\<close>
  arguments.
\<close>

definition observable_ok :: "int \<Rightarrow> int \<Rightarrow> run_call list \<Rightarrow> bool" where
  "observable_ok budget runs calls =
     (length calls \<le> 18
      \<and> well_logged budget calls
      \<and> (budget - sum_list (map rc_successes calls) \<le> 0 \<or> length calls = 18)
      \<and> runs = sum_list (map rc_repetitions calls))"

text \<open>
  The invariant of the sampling loops: the log is well formed, \<open>repetitions\<close> is the budget
  less the successes logged, \<open>num_runs\<close> is the sum of the \<open>repetitions\<close> arguments logged.
  A trial is entered only in a state that may continue: before the first call, or with a
  positive counter.
\<close>

definition sampler_inv :: "int \<Rightarrow> sampler_state \<Rightarrow> bool" where
  "sampler_inv budget s =
     (well_logged budget (issued s)
      \<and> repetitions s = budget - sum_list (map rc_successes (issued s))
      \<and> num_runs s = sum_list (map rc_repetitions (issued s)))"

definition may_continue :: "sampler_state \<Rightarrow> bool" where
  "may_continue s = (issued s = [] \<or> 0 < repetitions s)"


text \<open>
  The controls of a gate: \<open>num_controls\<close> adds up the controls of nested controlled gates,
  \<open>sub_gate\<close> is the gate under all of them.
\<close>

fun num_controls :: "gate \<Rightarrow> int" where
  "num_controls (ControlledGate g n) = n + num_controls g"
| "num_controls g = 0"

fun sub_gate :: "gate \<Rightarrow> gate" where
  "sub_gate (ControlledGate g n) = sub_gate g"
| "sub_gate g = g"

fun is_ry :: "gate \<Rightarrow> bool" where
  "is_ry (Ry theta) = True"
| "is_ry g = False"

text \<open>An \<open>n\<close>-controlled \<open>Ry\<close> rotation on the given qubits.\<close>

fun controlled_rotation :: "nat \<Rightarrow> qubit list \<Rightarrow> operation \<Rightarrow> bool" where
  "controlled_rotation n qubits (GateOperation g qs) =
     (qs = qubits \<and> num_controls g = int n \<and> is_ry (sub_gate g))"
| "controlled_rotation n qubits (Inverse operation) = False"

text \<open>
  The effect of the X gates of a sequence of operations on the basis states of the register:
  a qubit is toggled when an odd number of X gates act on it, and \<open>apply_x\<close> flips the bits
  of the toggled qubits. \<open>pattern n k\<close> is the bit pattern of \<open>k\<close> on \<open>n\<close> qubits, most
  significant bit first.
\<close>

definition toggled :: "operation list \<Rightarrow> qubit \<Rightarrow> bool" where
  "toggled ops q = odd (length (filter (\<lambda>operation. operation = GateOperation X [q]) ops))"

definition apply_x :: "operation list \<Rightarrow> qubit list \<Rightarrow> bool list \<Rightarrow> bool list" where
  "apply_x ops reg b = map (\<lambda>(q, v). v \<noteq> toggled ops q) (zip reg b)"

definition pattern :: "nat \<Rightarrow> nat \<Rightarrow> bool list" where
  "pattern n k = map (\<lambda>i. bit k (n - 1 - i)) [0..<n]"

section \<open>The rotation angles of the eigenvalue inversion\<close>

lemma py_pow2_int: "py_pow2 (int n) = PyInt (2 ^ n)"
  by (simp add: py_pow2_def)

lemma ancilla_rotation_init:
  "ancilla_rotation (EigenRotation_init (int n + 1) C t) (int k) =
     (if - 1 \<le> theta_arg C t n k \<and> theta_arg C t n k \<le> 1
      then Inr (Ry (theta_spec C t n k)) else Inl ValueError)"
  by (simp add: ancilla_rotation_def EigenRotation_init_def py_pow2_int py_truediv_def math_asin_def
      theta_arg_def theta_spec_def Let_def)

text \<open>
  C2. For a register of \<open>n\<close> qubits (an \<open>EigenRotation\<close> on \<open>n + 1\<close> qubits) and every
  \<open>k < 2 ^ n\<close>, \<open>_ancilla_rotation(k)\<close> is the rotation \<open>Ry\<close> by the angle
  \<open>2 arcsin (C N t / (2 \<pi> k'))\<close> of the specification, with \<open>N = 2 ^ n\<close> and \<open>k' = k\<close> if
  \<open>k \<noteq> 0\<close> else \<open>N\<close>, whenever the argument of the arcsine lies in its domain (and a
  \<open>ValueError\<close> otherwise); the angle for \<open>k = 0\<close> is the angle for \<open>k = N\<close>, in the formula
  and in the code.
\<close>

theorem ancilla_rotation_angle:
  "k < 2 ^ n \<Longrightarrow>
   ancilla_rotation (EigenRotation_init (int n + 1) C t) (int k) =
     (if - 1 \<le> theta_arg C t n k \<and> theta_arg C t n k \<le> 1
      then Inr (Ry (theta_spec C t n k)) else Inl ValueError)
   \<and> theta_spec C t n 0 = theta_spec C t n (2 ^ n)
   \<and> ancilla_rotation (EigenRotation_init (int n + 1) C t) 0 =
     ancilla_rotation (EigenRotation_init (int n + 1) C t) (2 ^ n)"
proof (intro conjI)
  show "ancilla_rotation (EigenRotation_init (int n + 1) C t) (int k) =
     (if - 1 \<le> theta_arg C t n k \<and> theta_arg C t n k \<le> 1
      then Inr (Ry (theta_spec C t n k)) else Inl ValueError)"
    by (rule ancilla_rotation_init)
  show "theta_spec C t n 0 = theta_spec C t n (2 ^ n)"
    by (simp add: theta_spec_def theta_arg_def)
  show "ancilla_rotation (EigenRotation_init (int n + 1) C t) 0 =
     ancilla_rotation (EigenRotation_init (int n + 1) C t) (2 ^ n)"
    by (simp add: ancilla_rotation_def EigenRotation_init_def py_pow2_int)
qed

theorem ancilla_rotation_angle_witness:
  "(1::nat) < 2 ^ 1 \<and>
   ancilla_rotation (EigenRotation_init 2 1 1) 1 = Inr (Ry (2 * arcsin (1 / pi)))
   \<and> ancilla_rotation (EigenRotation_init 2 1 1) 0 = ancilla_rotation (EigenRotation_init 2 1 1) 2"
proof -
  have "1 / pi \<le> 1" using pi_ge_two by simp
  moreover have "- 1 \<le> 1 / pi" using pi_gt_zero by (simp add: order_trans [of "-1" 0])
  ultimately show ?thesis
    using ancilla_rotation_angle [of 1 1 1 1]
    by (simp add: theta_arg_def theta_spec_def)
qed

section \<open>The domain of the arcsine and the bound on C\<close>














section \<open>Re-exponentiating the Hamiltonian simulation\<close>

text \<open>
  C1 (as amended). \<open>_with_exponent(e)\<close> on a gate built from \<open>(A, t)\<close> builds a new gate from
  the stored \<open>A\<close> and \<open>t\<close>: it hands \<open>A\<close> to \<open>np.linalg.eigh\<close> once more, nothing is cached.
  As \<open>eigh\<close> is a function of the matrix, the eigen-components of the new gate (phase
  angles and projectors) are those of the original gate; \<open>A\<close> and \<open>t\<close> are kept and the
  exponent is \<open>e\<close>.
\<close>

theorem with_exponent_recomputes_same_components:
  "eigen_components (fst (with_exponent eigh (fst (HamiltonianSimulation_init eigh A t e0)) e))
     = eigen_components (fst (HamiltonianSimulation_init eigh A t e0))
   \<and> hs_A (fst (with_exponent eigh (fst (HamiltonianSimulation_init eigh A t e0)) e)) = A
   \<and> hs_t (fst (with_exponent eigh (fst (HamiltonianSimulation_init eigh A t e0)) e)) = t
   \<and> hs_exponent (fst (with_exponent eigh (fst (HamiltonianSimulation_init eigh A t e0)) e)) = e
   \<and> snd (with_exponent eigh (fst (HamiltonianSimulation_init eigh A t e0)) e) = [A]"
  by (simp add: with_exponent_def HamiltonianSimulation_init_def split: prod.splits)

text \<open>
  The sentence of the specification as it stands (no call of the eigendecomposition when re-exponentiating) fails
  for the matrix \<open>diag(1, 2)\<close>: the list of matrices handed to \<open>eigh\<close> by \<open>_with_exponent\<close>
  is not empty.
\<close>

theorem with_exponent_no_cache_counterexample:
  "snd (with_exponent (\<lambda>A. ([1, 2], [[1, 0], [0, 1]]))
          (fst (HamiltonianSimulation_init (\<lambda>A. ([1, 2], [[1, 0], [0, 1]])) [[1, 0], [0, 2]] 1 1)) 2)
     = [[[1, 0], [0, 2]]]
   \<and> snd (with_exponent (\<lambda>A. ([1, 2], [[1, 0], [0, 1]]))
          (fst (HamiltonianSimulation_init (\<lambda>A. ([1, 2], [[1, 0], [0, 1]])) [[1, 0], [0, 2]] 1 1)) 2)
     \<noteq> []"
  by (simp add: with_exponent_def HamiltonianSimulation_init_def)


section \<open>The circuits\<close>

text \<open>
  C4. The circuit returned by \<open>hhl_circuit\<close> is, in order: the input-preparation gates on the
  memory qubit, the phase estimation on register and memory, the eigenvalue inversion
  (\<open>EigenRotation\<close>) on register and ancilla, and the inverse of the same phase-estimation
  operation; with input-preparation gates that are not measurement gates it contains no
  measurement.
\<close>

theorem hhl_circuit_structure:
  assumes "\<forall>g\<in>set (input_prep_gates self). \<not> is_measurement_gate g"
  shows "hhl_circuit eigh self =
           map (\<lambda>g. GateOperation g [memory self]) (input_prep_gates self)
           @ [ GateOperation
                 (PhaseEstimation (register_size self + 1)
                    (fst (HamiltonianSimulation_init eigh (hhl_A self) (hhl_t self) 1)))
                 (register self @ [memory self]),
               GateOperation
                 (EigenRotation (EigenRotation_init (register_size self + 1) (hhl_C self) (hhl_t self)))
                 (register self @ [ancilla self]),
               Inverse
                 (GateOperation
                    (PhaseEstimation (register_size self + 1)
                       (fst (HamiltonianSimulation_init eigh (hhl_A self) (hhl_t self) 1)))
                    (register self @ [memory self])) ]
         \<and> (\<forall>operation\<in>set (hhl_circuit eigh self). \<not> is_measurement operation)"
  using assms by (auto simp add: hhl_circuit_def Let_def)

theorem hhl_circuit_structure_witness:
  "\<not> is_measurement_gate (Rx 1) \<and> \<not> is_measurement_gate (Rz 1)
   \<and> hhl_circuit (\<lambda>A. ([1, 2], [[1, 0], [0, 1]])) (HHLAlgorithm_init [[1, 0], [0, 2]] 1 1 1 [Rx 1, Rz 1]) =
       [ GateOperation (Rx 1) [LineQubit 2],
         GateOperation (Rz 1) [LineQubit 2],
         GateOperation
           (PhaseEstimation 2
              (fst (HamiltonianSimulation_init (\<lambda>A. ([1, 2], [[1, 0], [0, 1]])) [[1, 0], [0, 2]] 1 1)))
           [LineQubit 1, LineQubit 2],
         GateOperation (EigenRotation (EigenRotation_init 2 1 1)) [LineQubit 1, LineQubit 0],
         Inverse
           (GateOperation
              (PhaseEstimation 2
                 (fst (HamiltonianSimulation_init (\<lambda>A. ([1, 2], [[1, 0], [0, 1]])) [[1, 0], [0, 2]] 1 1)))
              [LineQubit 1, LineQubit 2]) ]"
proof -
  have h: "\<forall>g\<in>set (input_prep_gates (HHLAlgorithm_init [[1, 0], [0, 2]] 1 1 1 [Rx 1, Rz 1])).
      \<not> is_measurement_gate g"
    by (simp add: HHLAlgorithm_init_def)
  show ?thesis
    using hhl_circuit_structure [OF h, of "\<lambda>A. ([1, 2], [[1, 0], [0, 1]])"]
    by (simp add: HHLAlgorithm_init_def)
qed

text \<open>The loop of \<open>amplitude_amplification\<close> appends the same block \<open>n\<close> times.\<close>

lemma amplification_loop_eq:
  "amplification_loop n r_succ r_init hhl c =
     c @ concat (replicate n ([r_succ] @ circuit_inverse hhl @ r_init @ hhl))"
  by (induction n arbitrary: c) simp_all

text \<open>
  C5. \<open>amplitude_amplification(num_iterations)\<close> is the base circuit followed by
  \<open>num_iterations\<close> repeats of the block: Z on the ancilla, the inverse of the base circuit,
  the diffusion operator, the base circuit; for \<open>num_iterations = 0\<close> it is the base circuit
  of \<open>hhl_circuit\<close>, operation for operation.
\<close>

theorem amplitude_amplification_structure:
  "amplitude_amplification eigh self num_iterations =
     hhl_circuit eigh self
     @ concat (replicate (nat num_iterations)
         ([GateOperation Z [ancilla self]] @ circuit_inverse (hhl_circuit eigh self)
          @ diffusion_operator self @ hhl_circuit eigh self))
   \<and> amplitude_amplification eigh self 0 = hhl_circuit eigh self"
  by (simp add: amplitude_amplification_def Let_def amplification_loop_eq)

text \<open>
  C10. \<open>measure_circuit\<close> returns the reference it was given; the circuit at that reference
  is its old contents followed by the measurement of the ancilla with key \<open>a\<close>, the
  parametrized \<open>PhasedXPowGate\<close> on the memory qubit and the measurement of the memory qubit
  with key \<open>m\<close>, so the operations it held come first, unchanged and in their order; every
  other circuit of the store is unchanged.
\<close>

theorem measure_circuit_frame:
  "fst (measure_circuit self circuit st) = circuit
   \<and> snd (measure_circuit self circuit st) circuit =
       st circuit
       @ [ GateOperation (MeasurementGate ''a'') [ancilla self],
           GateOperation (PhasedXPowGate ''exponent'' ''phase_exponent'') [memory self],
           GateOperation (MeasurementGate ''m'') [memory self] ]
   \<and> take (length (st circuit)) (snd (measure_circuit self circuit st) circuit) = st circuit
   \<and> (\<forall>other. other \<noteq> circuit \<longrightarrow> snd (measure_circuit self circuit st) other = st other)"
  by (simp add: measure_circuit_def measured_contents_def)

theorem measure_circuit_frame_witness:
  "fst (measure_circuit (HHLAlgorithm_init [[1, 0], [0, 2]] 1 1 1 [])
          0 ((\<lambda>r. [])(0 := [GateOperation Z [LineQubit 0]], 1 := [GateOperation X [LineQubit 1]]))) = 0
   \<and> snd (measure_circuit (HHLAlgorithm_init [[1, 0], [0, 2]] 1 1 1 [])
          0 ((\<lambda>r. [])(0 := [GateOperation Z [LineQubit 0]], 1 := [GateOperation X [LineQubit 1]]))) 0
      = [ GateOperation Z [LineQubit 0],
          GateOperation (MeasurementGate ''a'') [LineQubit 0],
          GateOperation (PhasedXPowGate ''exponent'' ''phase_exponent'') [LineQubit 2],
          GateOperation (MeasurementGate ''m'') [LineQubit 2] ]
   \<and> snd (measure_circuit (HHLAlgorithm_init [[1, 0], [0, 2]] 1 1 1 [])
          0 ((\<lambda>r. [])(0 := [GateOperation Z [LineQubit 0]], 1 := [GateOperation X [LineQubit 1]]))) 1
      = [GateOperation X [LineQubit 1]]"
  using measure_circuit_frame [of "HHLAlgorithm_init [[1, 0], [0, 2]] 1 1 1 []" 0
      "(\<lambda>r. [])(0 := [GateOperation Z [LineQubit 0]], 1 := [GateOperation X [LineQubit 1]])"]
  by (simp add: HHLAlgorithm_init_def)



section \<open>The amplified sampling loop\<close>

lemma well_logged_snoc:
  "well_logged r (cs @ [c]) \<longleftrightarrow>
     well_logged r cs \<and> rc_repetitions c = r - sum_list (map rc_successes cs)
     \<and> (cs \<noteq> [] \<longrightarrow> 0 < r - sum_list (map rc_successes cs))"
proof (induction cs arbitrary: r)
  case Nil
  then show ?case by simp
next
  case (Cons d ds)
  show ?case
  proof (cases "ds = []")
    case True
    then show ?thesis by auto
  next
    case False
    then show ?thesis using Cons.IH [of "r - rc_successes d"] by (auto simp: algebra_simps)
  qed
qed

lemma trial_length: "length (issued (trial w eigh self p base M s)) = Suc (length (issued s))"
  by (simp add: trial_def Let_def)

lemma trial_inv:
  assumes "sampler_inv budget s" and "may_continue s"
  shows "sampler_inv budget (trial w eigh self p base M s)"
  using assms
  by (auto simp add: sampler_inv_def may_continue_def trial_def Let_def well_logged_snoc)

lemma trials_loop_inv:
  assumes "sampler_inv budget s" and "may_continue s"
  shows "sampler_inv budget (trials_loop w eigh self p base M ts s)
       \<and> length (issued (trials_loop w eigh self p base M ts s)) \<le> length (issued s) + length ts
       \<and> (0 < repetitions (trials_loop w eigh self p base M ts s)
            \<longrightarrow> length (issued (trials_loop w eigh self p base M ts s)) = length (issued s) + length ts)"
  using assms
proof (induction ts arbitrary: s)
  case Nil
  then show ?case by simp
next
  case (Cons i rest)
  let ?s' = "trial w eigh self p base M s"
  have inv': "sampler_inv budget ?s'" using Cons.prems by (rule trial_inv)
  show ?case
  proof (cases "repetitions ?s' \<le> 0")
    case True
    then show ?thesis using inv' by (simp add: Let_def trial_length)
  next
    case False
    then have "may_continue ?s'" by (simp add: may_continue_def)
    from Cons.IH [OF inv' this] False show ?thesis by (simp add: Let_def trial_length)
  qed
qed

lemma doubling_loop_inv:
  assumes "sampler_inv budget s" and "may_continue s"
  shows "sampler_inv budget (doubling_loop w eigh self p base ls s)
       \<and> length (issued (doubling_loop w eigh self p base ls s)) \<le> length (issued s) + 2 * length ls
       \<and> (0 < repetitions (doubling_loop w eigh self p base ls s)
            \<longrightarrow> length (issued (doubling_loop w eigh self p base ls s))
                = length (issued s) + 2 * length ls)"
  using assms
proof (induction ls arbitrary: s)
  case Nil
  then show ?case by simp
next
  case (Cons l ls)
  let ?s' = "trials_loop w eigh self p base (2 ^ nat l) [0, 1] s"
  note t = trials_loop_inv [OF Cons.prems, of w eigh self p base "2 ^ nat l" "[0, 1]"]
  show ?case
  proof (cases "repetitions ?s' \<le> 0")
    case True
    then show ?thesis using t by (simp add: Let_def)
  next
    case False
    then have mc: "may_continue ?s'" by (simp add: may_continue_def)
    from t have inv': "sampler_inv budget ?s'" by blast
    from False t have len: "length (issued ?s') = length (issued s) + 2" by simp
    from Cons.IH [OF inv' mc] False len show ?thesis by (simp add: Let_def)
  qed
qed

lemma length_1_9: "length [1..9::int] = 9"
  by simp

lemma sample_param_ok:
  "observable_ok budget (num_runs (sample_param w eigh self budget base p))
     (issued (sample_param w eigh self budget base p))"
proof -
  let ?s0 = "\<lparr> repetitions = budget, num_runs = 0, results_for_param = [], issued = [] \<rparr>"
  have "sampler_inv budget ?s0" by (simp add: sampler_inv_def)
  moreover have "may_continue ?s0" by (simp add: may_continue_def)
  ultimately have d: "sampler_inv budget (doubling_loop w eigh self p base [1..9] ?s0)
       \<and> length (issued (doubling_loop w eigh self p base [1..9] ?s0)) \<le> length (issued ?s0) + 2 * length [1..9::int]
       \<and> (0 < repetitions (doubling_loop w eigh self p base [1..9] ?s0)
            \<longrightarrow> length (issued (doubling_loop w eigh self p base [1..9] ?s0))
                = length (issued ?s0) + 2 * length [1..9::int])"
    by (rule doubling_loop_inv)
  then show ?thesis
    unfolding observable_ok_def sample_param_def sampler_inv_def length_1_9
    by auto
qed

lemma params_loop_ok:
  "length (fst (snd (params_loop w eigh self budget base ps))) = length ps
   \<and> length (snd (snd (params_loop w eigh self budget base ps))) = length ps
   \<and> list_all2 (observable_ok budget)
        (fst (snd (params_loop w eigh self budget base ps)))
        (snd (snd (params_loop w eigh self budget base ps)))"
  by (induction ps arbitrary: base) (simp_all add: Let_def case_prod_beta sample_param_ok)

text \<open>
  C6. \<open>simulate_with_amplification\<close> returns three run counts, one for each observable, and
  for each observable: at most 18 = 2 * 9 \<open>simulator.run\<close> calls are issued; a call is
  followed by another one only while the remaining counter \<open>repetitions\<close> is positive, and
  the loop ends with the counter at zero or below or after the 18th call; the run count
  returned is the sum of the \<open>repetitions\<close> arguments of the calls issued.
\<close>

theorem amplified_sampling_calls:
  "length (fst (snd (simulate_with_amplification w eigh self total_estimates))) = 3
   \<and> length (snd (snd (simulate_with_amplification w eigh self total_estimates))) = 3
   \<and> list_all2 (observable_ok total_estimates)
        (fst (snd (simulate_with_amplification w eigh self total_estimates)))
        (snd (snd (simulate_with_amplification w eigh self total_estimates)))"
  using params_loop_ok [of w eigh self total_estimates 0 params]
  by (simp add: simulate_with_amplification_def params_def)


theorem amplified_sampling_calls_witness:
  "list_all2 (observable_ok 1)
     (fst (snd (simulate_with_amplification
        \<lparr> run_sweep = (\<lambda>c ps n. []), run = (\<lambda>n c p reps. [(1, 0)]), randint = (\<lambda>n lo hi. lo) \<rparr>
        (\<lambda>A. ([1, 2], [[1, 0], [0, 1]])) (HHLAlgorithm_init [[1, 0], [0, 2]] 1 1 1 []) 1)))
     (snd (snd (simulate_with_amplification
        \<lparr> run_sweep = (\<lambda>c ps n. []), run = (\<lambda>n c p reps. [(1, 0)]), randint = (\<lambda>n lo hi. lo) \<rparr>
        (\<lambda>A. ([1, 2], [[1, 0], [0, 1]])) (HHLAlgorithm_init [[1, 0], [0, 2]] 1 1 1 []) 1)))
   \<and> fst (snd (simulate_with_amplification
        \<lparr> run_sweep = (\<lambda>c ps n. []), run = (\<lambda>n c p reps. [(1, 0)]), randint = (\<lambda>n lo hi. lo) \<rparr>
        (\<lambda>A. ([1, 2], [[1, 0], [0, 1]])) (HHLAlgorithm_init [[1, 0], [0, 2]] 1 1 1 []) 1))
      = [1, 1, 1]
   \<and> map (map rc_repetitions) (snd (snd (simulate_with_amplification
        \<lparr> run_sweep = (\<lambda>c ps n. []), run = (\<lambda>n c p reps. [(1, 0)]), randint = (\<lambda>n lo hi. lo) \<rparr>
        (\<lambda>A. ([1, 2], [[1, 0], [0, 1]])) (HHLAlgorithm_init [[1, 0], [0, 2]] 1 1 1 []) 1)))
      = [[1], [1], [1]]"
proof -
  have u: "[1..9::int] = 1 # [2..9]" by (simp add: upto_rec1)
  show ?thesis
    using amplified_sampling_calls
      [where total_estimates = 1
         and w = "\<lparr> run_sweep = (\<lambda>c ps n. []), run = (\<lambda>n c p reps. [(1, 0)]), randint = (\<lambda>n lo hi. lo) \<rparr>"
         and eigh = "\<lambda>A. ([1, 2], [[1, 0], [0, 1]])"
         and self = "HHLAlgorithm_init [[1, 0], [0, 2]] 1 1 1 []"]
    by (simp add: simulate_with_amplification_def params_def sample_param_def u trial_def Let_def)
qed



section \<open>Reporting with no surviving shots\<close>

lemma print_loop_nonzero_runs:
  assumes "\<forall>e\<in>set entries. snd (snd e) \<noteq> 0"
  shows "print_loop entries printed sp =
           (printed @ map (\<lambda>(label, result, runs).
                (label, one_minus_twice (np_mean (map real_of_int result)), int (length result), runs))
              entries,
            Inr (sp @ map (\<lambda>(label, result, runs). real_of_int (int (length result)) / real_of_int runs)
              entries))"
  using assms
proof (induction entries arbitrary: printed sp)
  case Nil
  then show ?case by simp
next
  case (Cons e es)
  obtain label result runs where e: "e = (label, result, runs)" by (cases e) auto
  with Cons.prems have "runs \<noteq> 0" by simp
  moreover from Cons.prems have "\<forall>e\<in>set es. snd (snd e) \<noteq> 0" by simp
  ultimately show ?case
    using Cons.IH by (simp add: e int_truediv_def Let_def)
qed

lemma zip_runs_nonzero:
  assumes "\<forall>r\<in>set num_runs'. r \<noteq> 0"
  shows "\<forall>e\<in>set (zip labels (zip results num_runs')). snd (snd e) \<noteq> 0"
  using assms by (auto dest!: set_zip_rightD)

text \<open>
  C7 (as amended). \<open>print_results\<close> has no check for an observable with zero surviving
  shots: the expectation of such an observable is NaN, the value of \<open>np.mean\<close> on an empty
  array. When no run count is zero, every observable is processed (one line printed for
  each, with its expectation, its number of estimates and its runs) and the mean of the
  success probabilities is returned.
\<close>

theorem print_results_empty_sample:
  assumes "\<forall>r\<in>set num_runs'. r \<noteq> 0"
  shows "fst (print_results results num_runs') =
           map (\<lambda>(label, result, runs).
                (label, one_minus_twice (np_mean (map real_of_int result)), int (length result), runs))
             (zip [''X'', ''Y'', ''Z''] (zip results num_runs'))
       \<and> snd (print_results results num_runs') =
           Inr (np_mean (map (\<lambda>(label, result, runs). real_of_int (int (length result)) / real_of_int runs)
             (zip [''X'', ''Y'', ''Z''] (zip results num_runs'))))
       \<and> (\<forall>i<length (fst (print_results results num_runs')).
             results ! i = [] \<longrightarrow> fst (snd (fst (print_results results num_runs') ! i)) = NaN)"
proof -
  let ?entries = "zip [''X'', ''Y'', ''Z''] (zip results num_runs')"
  have nz: "\<forall>e\<in>set ?entries. snd (snd e) \<noteq> 0"
    using assms by (rule zip_runs_nonzero)
  have pr: "print_results results num_runs' =
     (map (\<lambda>(label, result, runs).
                (label, one_minus_twice (np_mean (map real_of_int result)), int (length result), runs))
             ?entries,
      Inr (np_mean (map (\<lambda>(label, result, runs). real_of_int (int (length result)) / real_of_int runs)
             ?entries)))"
    unfolding print_results_def print_loop_nonzero_runs [OF nz] by simp
  have "\<forall>i<length ?entries. results ! i = [] \<longrightarrow>
      fst (snd (map (\<lambda>(label, result, runs).
                (label, one_minus_twice (np_mean (map real_of_int result)), int (length result), runs))
             ?entries ! i)) = NaN"
    by (simp add: np_mean_def)
  then show ?thesis unfolding pr by simp
qed

theorem print_results_empty_sample_witness:
  "(5::int) \<noteq> 0
   \<and> print_results [[], [0, 1], [1]] [5, 5, 5] =
       ([(''X'', NaN, 0, 5), (''Y'', Finite 0, 2, 5), (''Z'', Finite (- 1), 1, 5)], Inr (Finite (1 / 5)))"
proof -
  have h: "\<forall>r\<in>set [5, 5, 5::int]. r \<noteq> 0" by simp
  have "print_results [[], [0, 1], [1]] [5, 5, 5] =
      (fst (print_results [[], [0, 1], [1]] [5, 5, 5]), snd (print_results [[], [0, 1], [1]] [5, 5, 5]))"
    by simp
  then show ?thesis
    using print_results_empty_sample [OF h, of "[[], [0, 1], [1]]"]
    by (simp add: np_mean_def)
qed

text \<open>
  The sentence of the specification as it stands (the anomaly never aborts the processing of the remaining
  observables) fails when the run counts are zero as well: the line for X is printed with
  NaN, then \<open>num_estimates / runs\<close> raises \<open>ZeroDivisionError\<close> and Y and Z are not processed.
\<close>

theorem print_results_abort_counterexample:
  "print_results [[], [], []] [0, 0, 0] = ([(''X'', NaN, 0, 0)], Inl ZeroDivisionError)"
  by (simp add: print_results_def np_mean_def int_truediv_def)

section \<open>Parameters are not validated\<close>

text \<open>
  C8 (as amended). \<open>HHLAlgorithm.__init__\<close> checks none of its parameters: it stores every
  \<open>register_size\<close> as given, and for \<open>register_size < 1\<close> the register is empty. With
  \<open>register_size = 0\<close> no error is reported before the execution engine is called:
  \<open>simulate_without_amplification\<close> issues its \<open>run_sweep\<close> call on the measured circuit.
\<close>

theorem no_parameter_validation:
  "register_size (HHLAlgorithm_init A C t n gs) = n
   \<and> (n < 1 \<longrightarrow> register (HHLAlgorithm_init A C t n gs) = [])
   \<and> snd (simulate_without_amplification w eigh (HHLAlgorithm_init A C t 0 gs) total_runs) =
       [(measured_contents (HHLAlgorithm_init A C t 0 gs)
           (hhl_circuit eigh (HHLAlgorithm_init A C t 0 gs)), params, total_runs)]"
  by (simp add: HHLAlgorithm_init_def simulate_without_amplification_def Let_def)

theorem no_parameter_validation_witness:
  "(0::int) < 1
   \<and> register (HHLAlgorithm_init [[1, 0], [0, 2]] 1 1 0 []) = []
   \<and> length (snd (simulate_without_amplification
        \<lparr> run_sweep = (\<lambda>c ps n. [[], [], []]), run = (\<lambda>n c p reps. []), randint = (\<lambda>n lo hi. lo) \<rparr>
        (\<lambda>A. ([1, 2], [[1, 0], [0, 1]])) (HHLAlgorithm_init [[1, 0], [0, 2]] 1 1 0 []) 5)) = 1"
  using no_parameter_validation
    [where n = 0 and A = "[[1, 0], [0, 2]]" and C = 1 and t = 1 and gs = "[]" and total_runs = 5
       and w = "\<lparr> run_sweep = (\<lambda>c ps n. [[], [], []]), run = (\<lambda>n c p reps. []), randint = (\<lambda>n lo hi. lo) \<rparr>"
       and eigh = "\<lambda>A. ([1, 2], [[1, 0], [0, 1]])"]
  by simp

text \<open>
  The sentence of the specification as it stands (\<open>register_size < 1\<close> is reported before any engine call) fails
  at \<open>register_size = 0\<close>: the object is built, and the engine is called with a circuit
  over an empty register.
\<close>

theorem register_size_zero_counterexample:
  "register_size (HHLAlgorithm_init [[1, 0], [0, 2]] 1 1 0 []) = 0
   \<and> simulate_without_amplification
        \<lparr> run_sweep = (\<lambda>c ps n. [[], [], []]), run = (\<lambda>n c p reps. []), randint = (\<lambda>n lo hi. lo) \<rparr>
        (\<lambda>A. ([1, 2], [[1, 0], [0, 1]])) (HHLAlgorithm_init [[1, 0], [0, 2]] 1 1 0 []) 5
     = ([[], [], []],
        [([ GateOperation
              (PhaseEstimation 1
                 (fst (HamiltonianSimulation_init (\<lambda>A. ([1, 2], [[1, 0], [0, 1]])) [[1, 0], [0, 2]] 1 1)))
              [LineQubit 1],
            GateOperation (EigenRotation (EigenRotation_init 1 1 1)) [LineQubit 0],
            Inverse
              (GateOperation
                 (PhaseEstimation 1
                    (fst (HamiltonianSimulation_init (\<lambda>A. ([1, 2], [[1, 0], [0, 1]])) [[1, 0], [0, 2]] 1 1)))
                 [LineQubit 1]),
            GateOperation (MeasurementGate ''a'') [LineQubit 0],
            GateOperation (PhasedXPowGate ''exponent'' ''phase_exponent'') [LineQubit 1],
            GateOperation (MeasurementGate ''m'') [LineQubit 1] ],
          params, 5)])"
  by (simp add: simulate_without_amplification_def HHLAlgorithm_init_def hhl_circuit_def
      measured_contents_def surviving_def Let_def)



section \<open>The Gray-code decomposition of the eigenvalue inversion\<close>

text \<open>Toggles of a sequence of operations, and of the X gates of one block.\<close>

lemma toggled_append: "toggled (xs @ ys) q = (toggled xs q \<noteq> toggled ys q)"
  by (auto simp add: toggled_def)

lemma toggled_Cons: "toggled (x # xs) q = (toggled [x] q \<noteq> toggled xs q)"
  by (auto simp add: toggled_def)

lemma toggled_Nil: "\<not> toggled [] q"
  by (simp add: toggled_def)

lemma toggled_single_X: "toggled [GateOperation X [q']] q = (q' = q)"
  by (simp add: toggled_def)

lemma toggled_single_other: "g \<noteq> X \<Longrightarrow> \<not> toggled [GateOperation g qs] q"
  by (simp add: toggled_def)

lemma place_x_gates_not_in:
  "q \<notin> set qs \<Longrightarrow> \<not> toggled (fst (place_x_gates xr g qs)) q"
proof (induction qs arbitrary: xr g)
  case Nil
  then show ?case by (simp add: toggled_Nil)
next
  case (Cons a qs)
  then show ?case
    by (auto simp add: Let_def case_prod_beta toggled_append toggled_single_X toggled_Nil)
qed

lemma place_x_gates_toggled:
  "distinct qs \<Longrightarrow> j < length qs \<Longrightarrow> toggled (fst (place_x_gates xr g qs)) (qs ! j) = bit xr j"
proof (induction qs arbitrary: xr g j)
  case Nil
  then show ?case by simp
next
  case (Cons a qs)
  show ?case
  proof (cases j)
    case 0
    have "\<not> toggled (fst (place_x_gates (drop_bit 1 xr) (ControlledGate g 1) qs)) a"
      using Cons.prems by (intro place_x_gates_not_in) simp
    then show ?thesis using 0
      by (auto simp add: Let_def case_prod_beta toggled_append toggled_single_X toggled_Nil
          bit_0 odd_iff_mod_2_eq_one)
  next
    case (Suc j')
    with Cons.prems have j': "j' < length qs" and d: "distinct qs" and ne: "a \<noteq> qs ! j'"
      by auto
    have "toggled (fst (place_x_gates (drop_bit 1 xr) (ControlledGate g 1) qs)) (qs ! j')
        = bit (drop_bit 1 xr) j'"
      using d j' by (rule Cons.IH)
    then show ?thesis using Suc ne
      by (auto simp add: Let_def case_prod_beta toggled_append toggled_single_X toggled_Nil
          bit_drop_bit_eq)
  qed
qed

lemma place_x_gates_gate:
  "num_controls (snd (place_x_gates xr g qs)) = num_controls g + int (length qs)
   \<and> sub_gate (snd (place_x_gates xr g qs)) = sub_gate g"
  by (induction qs arbitrary: xr g) (simp_all add: Let_def case_prod_beta)

lemma place_x_gates_no_rotation:
  "filter (controlled_rotation n qubits) (fst (place_x_gates xr g qs)) = []"
  by (induction qs arbitrary: xr g) (simp_all add: Let_def case_prod_beta)

lemma ancilla_rotation_Ry:
  "ancilla_rotation er k = Inr g \<Longrightarrow> num_controls g = 0 \<and> sub_gate g = g \<and> is_ry g"
  by (auto simp add: ancilla_rotation_def Let_def split: sum.splits)

text \<open>The loop over \<open>k\<close>, block by block.\<close>

lemma decompose_loop_append:
  "decompose_loop er qs (ks @ ks') =
     (case decompose_loop er qs ks of
        Inl e \<Rightarrow> Inl e
      | Inr a \<Rightarrow> (case decompose_loop er qs ks' of Inl e \<Rightarrow> Inl e | Inr b \<Rightarrow> Inr (a @ b)))"
  by (induction ks) (simp_all add: case_prod_beta Let_def split: sum.splits)


lemma decompose_loop_single:
  assumes "decompose_loop er qubits [k] = Inr out"
  shows "\<exists>g0. ancilla_rotation er k = Inr g0
           \<and> out = fst (place_x_gates (k XOR (k - 1)) g0 (rev (butlast qubits)))
                   @ [GateOperation (snd (place_x_gates (k XOR (k - 1)) g0 (rev (butlast qubits)))) qubits]"
  using assms by (auto simp add: case_prod_beta Let_def split: sum.splits)

text \<open>
  The X gates of the blocks \<open>0, \<dots>, K\<close> together toggle the register qubit of bit \<open>j\<close>
  exactly when bit \<open>j\<close> of \<open>K\<close> is 0: the masks \<open>k XOR (k - 1)\<close> telescope.
\<close>

lemma bit_xor_pred_step:
  "(\<not> bit (int K) j) \<noteq> bit ((int K + 1) XOR (int K + 1 - 1)) j \<longleftrightarrow> \<not> bit (int K + 1) j"
  by (auto simp add: bit_xor_iff)

lemma decompose_loop_prefix:
  assumes d: "distinct reg"
  shows "decompose_loop er (reg @ [anc]) [0..int K] = Inr out \<Longrightarrow>
         \<exists>pre0 xs g. out = pre0 @ xs @ [GateOperation g (reg @ [anc])]
           \<and> decompose_loop er (reg @ [anc]) [0..int K - 1] = Inr pre0
           \<and> num_controls g = int (length reg)
           \<and> ancilla_rotation er (int K) = Inr (sub_gate g)
           \<and> (\<forall>j<length reg. toggled xs (rev reg ! j) = bit (int K XOR (int K - 1)) j)
           \<and> (\<forall>j<length reg. toggled (pre0 @ xs) (rev reg ! j) = (\<not> bit (int K) j))"
proof (induction K arbitrary: out)
  case 0
  from 0 have "decompose_loop er (reg @ [anc]) [0] = Inr out" by simp
  from decompose_loop_single [OF this] obtain g0 where
    g0: "ancilla_rotation er 0 = Inr g0" and
    out: "out = fst (place_x_gates (0 XOR (0 - 1)) g0 (rev reg))
                @ [GateOperation (snd (place_x_gates (0 XOR (0 - 1)) g0 (rev reg))) (reg @ [anc])]"
    by auto
  let ?xs = "fst (place_x_gates (0 XOR (0 - 1)) g0 (rev reg))"
  let ?g = "snd (place_x_gates (0 XOR (0 - 1)) g0 (rev reg))"
  have "num_controls ?g = int (length reg)" and "sub_gate ?g = g0"
    using place_x_gates_gate [of "0 XOR (0 - 1)" g0 "rev reg"] ancilla_rotation_Ry [OF g0] by simp_all
  moreover have "\<forall>j<length reg. toggled ?xs (rev reg ! j) = bit (int 0 XOR (int 0 - 1)) j"
    using d by (simp add: place_x_gates_toggled)
  moreover have "\<forall>j<length reg. toggled ([] @ ?xs) (rev reg ! j) = (\<not> bit (int 0) j)"
    using d by (simp add: place_x_gates_toggled)
  moreover have "decompose_loop er (reg @ [anc]) [0..int 0 - 1] = Inr []" by simp
  moreover have "out = [] @ ?xs @ [GateOperation ?g (reg @ [anc])]" using out by simp
  moreover have "ancilla_rotation er (int 0) = Inr (sub_gate ?g)"
    using g0 \<open>sub_gate ?g = g0\<close> by simp
  ultimately show ?case by blast
next
  case (Suc K)
  have split: "[0..int (Suc K)] = [0..int K] @ [int K + 1]"
    by (simp add: upto_rec2)
  from Suc.prems obtain a b where
    a: "decompose_loop er (reg @ [anc]) [0..int K] = Inr a" and
    b: "decompose_loop er (reg @ [anc]) [int K + 1] = Inr b" and
    out: "out = a @ b"
    unfolding split decompose_loop_append by (auto split: sum.splits)
  from Suc.IH [OF a] obtain pre0 xs0 g where
    a_eq: "a = pre0 @ xs0 @ [GateOperation g (reg @ [anc])]" and
    rotK: "ancilla_rotation er (int K) = Inr (sub_gate g)" and
    tog: "\<forall>j<length reg. toggled (pre0 @ xs0) (rev reg ! j) = (\<not> bit (int K) j)"
    by auto
  from decompose_loop_single [OF b] obtain g0 where
    g0: "ancilla_rotation er (int K + 1) = Inr g0" and
    b_eq: "b = fst (place_x_gates ((int K + 1) XOR (int K + 1 - 1)) g0 (rev reg))
                @ [GateOperation (snd (place_x_gates ((int K + 1) XOR (int K + 1 - 1)) g0 (rev reg))) (reg @ [anc])]"
    by auto
  let ?xs = "fst (place_x_gates ((int K + 1) XOR (int K + 1 - 1)) g0 (rev reg))"
  let ?g = "snd (place_x_gates ((int K + 1) XOR (int K + 1 - 1)) g0 (rev reg))"
  have gK_not_X: "g \<noteq> X"
    using rotK ancilla_rotation_Ry [OF rotK] by auto
  have "num_controls ?g = int (length reg)" and sg: "sub_gate ?g = g0"
    using place_x_gates_gate [of "(int K + 1) XOR (int K + 1 - 1)" g0 "rev reg"]
      ancilla_rotation_Ry [OF g0] by simp_all
  moreover have xs_tog: "\<forall>j<length reg. toggled ?xs (rev reg ! j)
      = bit (int (Suc K) XOR (int (Suc K) - 1)) j"
    using d by (simp add: place_x_gates_toggled add.commute)
  moreover have "\<forall>j<length reg. toggled (a @ ?xs) (rev reg ! j) = (\<not> bit (int (Suc K)) j)"
  proof (intro allI impI)
    fix j assume j: "j < length reg"
    have "toggled ?xs (rev reg ! j) = bit ((int K + 1) XOR (int K + 1 - 1)) j"
      using d j by (simp add: place_x_gates_toggled)
    moreover have "\<not> toggled [GateOperation g (reg @ [anc])] (rev reg ! j)"
      using gK_not_X by (rule toggled_single_other)
    moreover have "toggled (pre0 @ xs0) (rev reg ! j) = (\<not> bit (int K) j)" using tog j by simp
    moreover have "a @ ?xs = (pre0 @ xs0) @ [GateOperation g (reg @ [anc])] @ ?xs"
      using a_eq by simp
    ultimately show "toggled (a @ ?xs) (rev reg ! j) = (\<not> bit (int (Suc K)) j)"
      using bit_xor_pred_step [of K j]
      by (simp only: toggled_append) (simp add: add.commute)
  qed
  moreover have "out = a @ ?xs @ [GateOperation ?g (reg @ [anc])]"
    using out b_eq by simp
  moreover have "ancilla_rotation er (int (Suc K)) = Inr (sub_gate ?g)"
    using g0 sg by (simp add: add.commute)
  moreover have "decompose_loop er (reg @ [anc]) [0..int (Suc K) - 1] = Inr a"
    using a by simp
  ultimately show ?case by blast
qed

lemma decompose_loop_count:
  assumes "length qubits = Suc n"
  shows "decompose_loop er qubits ks = Inr out \<Longrightarrow>
         length (filter (controlled_rotation n qubits) out) = length ks"
proof (induction ks arbitrary: out)
  case Nil
  then show ?case by simp
next
  case (Cons k ks)
  from Cons.prems obtain g0 rest where
    g0: "ancilla_rotation er k = Inr g0" and
    rest: "decompose_loop er qubits ks = Inr rest" and
    out: "out = fst (place_x_gates (k XOR (k - 1)) g0 (rev (butlast qubits)))
              @ [GateOperation (snd (place_x_gates (k XOR (k - 1)) g0 (rev (butlast qubits)))) qubits]
              @ rest"
    by (auto simp add: case_prod_beta Let_def split: sum.splits)
  have "controlled_rotation n qubits
          (GateOperation (snd (place_x_gates (k XOR (k - 1)) g0 (rev (butlast qubits)))) qubits)"
    using place_x_gates_gate [of "k XOR (k - 1)" g0 "rev (butlast qubits)"]
      ancilla_rotation_Ry [OF g0] assms by simp
  then show ?case
    using Cons.IH [OF rest] by (simp add: out place_x_gates_no_rotation)
qed

lemma all_ones_iff_pattern:
  assumes len: "length reg = n"
    and tog: "\<forall>j<n. toggled pre (rev reg ! j) = (\<not> bit k j)"
    and b: "length b = n"
  shows "apply_x pre reg b = replicate n True \<longleftrightarrow> b = pattern n k"
proof -
  have t: "toggled pre (reg ! i) = (\<not> bit k (n - 1 - i))" if "i < n" for i
  proof -
    from that have j: "n - 1 - i < n" by simp
    have "rev reg ! (n - 1 - i) = reg ! i"
      using that len by (simp add: rev_nth)
    with tog j show ?thesis by metis
  qed
  have "apply_x pre reg b = replicate n True \<longleftrightarrow> (\<forall>i<n. b ! i \<noteq> toggled pre (reg ! i))"
    using len b by (simp add: apply_x_def list_eq_iff_nth_eq)
  also have "\<dots> \<longleftrightarrow> (\<forall>i<n. b ! i = bit k (n - 1 - i))"
    using t by auto
  also have "\<dots> \<longleftrightarrow> b = pattern n k"
    using b by (auto simp add: pattern_def list_eq_iff_nth_eq)
  finally show ?thesis .
qed


lemma upto_length_pow2: "length [0..2 ^ n - 1 :: int] = 2 ^ n"
  by simp

text \<open>
  C3. Let the decomposition of the \<open>EigenRotation\<close> on the register \<open>reg\<close> of \<open>n\<close> distinct
  qubits and the ancilla succeed, and let \<open>k < 2 ^ n\<close>. The output is the output \<open>pre0\<close> of
  the blocks before \<open>k\<close>, then the block of \<open>k\<close>, then the rest. The block of \<open>k\<close> is X gates
  \<open>xs\<close> followed by one rotation; \<open>xs\<close> toggles the register qubits at the set bits of
  \<open>k XOR (k - 1)\<close>, least significant bit on the last register qubit. After them the X
  gates emitted so far map a basis state of the register to all ones exactly when it is the
  bit pattern of \<open>k\<close>. The rotation is the \<open>Ry\<close> rotation by the angle of \<open>k\<close> under \<open>n\<close>
  controls, on all the qubits. The whole output holds exactly \<open>2 ^ n\<close> such \<open>n\<close>-controlled
  rotations.
\<close>

theorem eigen_rotation_gray_code:
  assumes dec: "EigenRotation_decompose (EigenRotation_init (int n + 1) C t) (reg @ [anc]) = Inr ops"
    and len: "length reg = n"
    and dist: "distinct reg"
    and k: "k < 2 ^ n"
  shows "\<exists>pre0 xs g rest.
           ops = pre0 @ xs @ [GateOperation g (reg @ [anc])] @ rest
         \<and> decompose_loop (EigenRotation_init (int n + 1) C t) (reg @ [anc]) [0..int k - 1] = Inr pre0
         \<and> decompose_loop (EigenRotation_init (int n + 1) C t) (reg @ [anc]) [int k]
             = Inr (xs @ [GateOperation g (reg @ [anc])])
         \<and> (\<forall>j<n. toggled xs (rev reg ! j) = bit (int k XOR (int k - 1)) j)
         \<and> (\<forall>b. length b = n \<longrightarrow> (apply_x (pre0 @ xs) reg b = replicate n True \<longleftrightarrow> b = pattern n k))
         \<and> num_controls g = int n
         \<and> sub_gate g = Ry (theta_spec C t n k)
         \<and> length (filter (controlled_rotation n (reg @ [anc])) ops) = 2 ^ n"
proof -
  let ?er = "EigenRotation_init (int n + 1) C t"
  let ?Q = "reg @ [anc]"
  have N: "er_N ?er = PyInt (2 ^ n)"
    by (simp add: EigenRotation_init_def py_pow2_int)
  from dec have all: "decompose_loop ?er ?Q [0..2 ^ n - 1] = Inr ops"
    by (simp add: EigenRotation_decompose_def N py_range_def)
  have kint: "int k \<le> 2 ^ n - 1"
    using k by (metis of_nat_less_iff of_nat_numeral of_nat_power zle_diff1_eq)
  have split: "[0..2 ^ n - 1 :: int] = [0..int k] @ [int k + 1..2 ^ n - 1]"
    using kint by (intro upto_split2) simp_all
  from all obtain out rest where
    out: "decompose_loop ?er ?Q [0..int k] = Inr out" and
    rest: "decompose_loop ?er ?Q [int k + 1..2 ^ n - 1] = Inr rest" and
    ops: "ops = out @ rest"
    unfolding split decompose_loop_append by (auto split: sum.splits)
  from decompose_loop_prefix [OF dist out] obtain pre0 xs g where
    out_eq: "out = pre0 @ xs @ [GateOperation g ?Q]" and
    pre0: "decompose_loop ?er ?Q [0..int k - 1] = Inr pre0" and
    nc: "num_controls g = int (length reg)" and
    rot: "ancilla_rotation ?er (int k) = Inr (sub_gate g)" and
    xs: "\<forall>j<length reg. toggled xs (rev reg ! j) = bit (int k XOR (int k - 1)) j" and
    tog: "\<forall>j<length reg. toggled (pre0 @ xs) (rev reg ! j) = (\<not> bit (int k) j)"
    by blast
  have split2: "[0..int k] = [0..int k - 1] @ [int k]"
    by (simp add: upto_rec2)
  from out pre0 have blk: "decompose_loop ?er ?Q [int k] = Inr (xs @ [GateOperation g ?Q])"
    unfolding split2 decompose_loop_append out_eq by (auto split: sum.splits)
  have sg: "sub_gate g = Ry (theta_spec C t n k)"
    using rot ancilla_rotation_init [of n C t k] by (auto split: if_splits)
  have tog': "\<forall>j<n. toggled (pre0 @ xs) (rev reg ! j) = (\<not> bit k j)"
    using tog len by (simp add: bit_of_nat_iff_bit)
  have pat: "\<forall>b. length b = n \<longrightarrow>
      (apply_x (pre0 @ xs) reg b = replicate n True \<longleftrightarrow> b = pattern n k)"
    using all_ones_iff_pattern [OF len tog'] by blast
  have cnt: "length (filter (controlled_rotation n ?Q) ops) = 2 ^ n"
    using decompose_loop_count [of ?Q n ?er "[0..2 ^ n - 1]" ops] all len
    by (simp only: upto_length_pow2) simp
  have "ops = pre0 @ xs @ [GateOperation g ?Q] @ rest"
    using ops out_eq by simp
  with pre0 blk xs pat nc sg cnt len show ?thesis by blast
qed


text \<open>The decomposition for a register of one qubit, \<open>C = 1\<close> and \<open>t = 1\<close>.\<close>

lemma decompose_one_qubit_register:
  "EigenRotation_decompose (EigenRotation_init 2 1 1) [LineQubit 1, LineQubit 0] =
     Inr [ GateOperation X [LineQubit 1],
           GateOperation (ControlledGate (Ry (2 * arcsin (1 / (2 * pi)))) 1) [LineQubit 1, LineQubit 0],
           GateOperation X [LineQubit 1],
           GateOperation (ControlledGate (Ry (2 * arcsin (1 / pi))) 1) [LineQubit 1, LineQubit 0] ]"
proof -
  have p1: "1 / pi \<le> 1" and p2: "1 / (2 * pi) \<le> 1" using pi_ge_two by simp_all
  have p3: "- 1 \<le> 1 / pi" and p4: "- 1 \<le> 1 / (2 * pi)"
    using pi_gt_zero by (simp_all add: order_trans [of "-1" 0])
  have N: "py_pow2 1 = PyInt 2" by (simp add: py_pow2_def)
  have a0: "ancilla_rotation (EigenRotation_init 2 1 1) 0 = Inr (Ry (2 * arcsin (1 / (2 * pi))))"
    using p2 p4 by (simp add: ancilla_rotation_def EigenRotation_init_def N py_truediv_def math_asin_def)
  have a1: "ancilla_rotation (EigenRotation_init 2 1 1) 1 = Inr (Ry (2 * arcsin (1 / pi)))"
    using p1 p3 by (simp add: ancilla_rotation_def EigenRotation_init_def N py_truediv_def math_asin_def)
  have u: "[0..1::int] = [0, 1]" by (simp add: upto_rec1)
  have r: "py_range (er_N (EigenRotation_init 2 1 1)) = Inr [0, 1]"
    by (simp add: EigenRotation_init_def N py_range_def u)
  show ?thesis
    by (simp add: EigenRotation_decompose_def r a0 a1)
qed

theorem eigen_rotation_gray_code_witness:
  "EigenRotation_decompose (EigenRotation_init 2 1 1) [LineQubit 1, LineQubit 0] =
     Inr [ GateOperation X [LineQubit 1],
           GateOperation (ControlledGate (Ry (2 * arcsin (1 / (2 * pi)))) 1) [LineQubit 1, LineQubit 0],
           GateOperation X [LineQubit 1],
           GateOperation (ControlledGate (Ry (2 * arcsin (1 / pi))) 1) [LineQubit 1, LineQubit 0] ]
   \<and> distinct [LineQubit 1] \<and> (1::nat) < 2 ^ 1
   \<and> (\<exists>pre0 xs g rest.
         [ GateOperation X [LineQubit 1],
           GateOperation (ControlledGate (Ry (2 * arcsin (1 / (2 * pi)))) 1) [LineQubit 1, LineQubit 0],
           GateOperation X [LineQubit 1],
           GateOperation (ControlledGate (Ry (2 * arcsin (1 / pi))) 1) [LineQubit 1, LineQubit 0] ]
           = pre0 @ xs @ [GateOperation g [LineQubit 1, LineQubit 0]] @ rest
         \<and> apply_x (pre0 @ xs) [LineQubit 1] (pattern 1 1) = [True]
         \<and> num_controls g = 1
         \<and> sub_gate g = Ry (theta_spec 1 1 1 1))"
proof -
  have dec: "EigenRotation_decompose (EigenRotation_init (int 1 + 1) 1 1) ([LineQubit 1] @ [LineQubit 0]) =
     Inr [ GateOperation X [LineQubit 1],
           GateOperation (ControlledGate (Ry (2 * arcsin (1 / (2 * pi)))) 1) [LineQubit 1, LineQubit 0],
           GateOperation X [LineQubit 1],
           GateOperation (ControlledGate (Ry (2 * arcsin (1 / pi))) 1) [LineQubit 1, LineQubit 0] ]"
    using decompose_one_qubit_register by simp
  have len: "length [LineQubit 1] = 1" by simp
  have dist: "distinct [LineQubit 1]" by simp
  have k: "(1::nat) < 2 ^ 1" by simp
  from eigen_rotation_gray_code [OF dec len dist k] obtain pre0 xs g rest where
    e: "[ GateOperation X [LineQubit 1],
           GateOperation (ControlledGate (Ry (2 * arcsin (1 / (2 * pi)))) 1) [LineQubit 1, LineQubit 0],
           GateOperation X [LineQubit 1],
           GateOperation (ControlledGate (Ry (2 * arcsin (1 / pi))) 1) [LineQubit 1, LineQubit 0] ]
           = pre0 @ xs @ [GateOperation g ([LineQubit 1] @ [LineQubit 0])] @ rest" and
    p: "\<forall>b. length b = 1 \<longrightarrow>
          (apply_x (pre0 @ xs) [LineQubit 1] b = replicate 1 True \<longleftrightarrow> b = pattern 1 1)" and
    nc: "num_controls g = int 1" and
    sg: "sub_gate g = Ry (theta_spec 1 1 1 1)"
    by blast
  have "length (pattern 1 1) = 1" by (simp add: pattern_def)
  with p have "apply_x (pre0 @ xs) [LineQubit 1] (pattern 1 1) = [True]" by simp
  with e nc sg have "\<exists>pre0 xs g rest.
         [ GateOperation X [LineQubit 1],
           GateOperation (ControlledGate (Ry (2 * arcsin (1 / (2 * pi)))) 1) [LineQubit 1, LineQubit 0],
           GateOperation X [LineQubit 1],
           GateOperation (ControlledGate (Ry (2 * arcsin (1 / pi))) 1) [LineQubit 1, LineQubit 0] ]
           = pre0 @ xs @ [GateOperation g [LineQubit 1, LineQubit 0]] @ rest
         \<and> apply_x (pre0 @ xs) [LineQubit 1] (pattern 1 1) = [True]
         \<and> num_controls g = 1
         \<and> sub_gate g = Ry (theta_spec 1 1 1 1)"
    by (intro exI [of _ pre0] exI [of _ xs] exI [of _ g] exI [of _ rest]) simp
  with decompose_one_qubit_register show ?thesis by simp
qed


end
